theory Spec2Isabelle
  imports Complex_Main
begin

section \<open>Data model: pandas frames as the pipeline uses them\<close>

text \<open>
  \<^verbatim>\<open>Avg_Data.py\<close> keeps every collection of posts in a pandas DataFrame. A frame is
  modelled by its list of column names and its rows, each row holding one cell per column,
  in column order. A cell is a Python string (\<^verbatim>\<open>submission.title\<close>,
  \<^verbatim>\<open>submission.selftext\<close>), a \<^verbatim>\<open>datetime.date\<close> (its ordinal day number), a float
  (a sentiment score, modelled as an exact real: rounding is not modelled) or the missing
  value pandas fills in when frames with different columns are concatenated.
\<close>

datatype cell = Str string | Day int | Num real | NaN

type_synonym row = "cell list"

record dataframe =
  columns :: "string list"
  rows :: "row list"

text \<open>Every exception the pipeline can meet; none of them is caught anywhere in the file.\<close>

datatype error = SourceError | ParserError | KeyError | ZeroDivisionError | ScorerError

text \<open>\<^verbatim>\<open>pd.DataFrame(data, columns=cols)\<close>\<close>

definition DataFrame :: "row list \<Rightarrow> string list \<Rightarrow> dataframe" where
  "DataFrame data cols = \<lparr>columns = cols, rows = data\<rparr>"

text \<open>The cell of row \<open>r\<close> under column \<open>c\<close>; a column the frame does not have reads as missing.\<close>

definition cell_of :: "string list \<Rightarrow> row \<Rightarrow> string \<Rightarrow> cell" where
  "cell_of cols r c = (case map_of (zip cols r) c of Some v \<Rightarrow> v | None \<Rightarrow> NaN)"

text \<open>The rows of a frame laid out over another list of columns.\<close>

definition reindex :: "string list \<Rightarrow> dataframe \<Rightarrow> row list" where
  "reindex cols df = map (\<lambda>r. map (cell_of (columns df) r) cols) (rows df)"

text \<open>
  \<^verbatim>\<open>pd.concat([a, b])\<close>: the columns of \<open>a\<close>, then those of \<open>b\<close> that \<open>a\<close> lacks; the rows of
  \<open>a\<close>, then the rows of \<open>b\<close>, missing cells filled with NaN.
\<close>

definition pd_concat :: "dataframe \<Rightarrow> dataframe \<Rightarrow> dataframe" where
  "pd_concat a b =
     (let cols = columns a @ filter (\<lambda>c. c \<notin> set (columns a)) (columns b)
      in \<lparr>columns = cols, rows = reindex cols a @ reindex cols b\<rparr>)"

text \<open>
  \<^verbatim>\<open>drop_duplicates(subset=..., keep='last')\<close>: a row is dropped when a later row has the
  same cells under the subset columns; the rows kept stay in their order. A subset column
  the frame lacks raises KeyError.
\<close>

fun keep_last :: "(row \<Rightarrow> 'k) \<Rightarrow> row list \<Rightarrow> row list" where
  "keep_last key [] = []"
| "keep_last key (r # rs) =
     (if key r \<in> set (map key rs) then keep_last key rs else r # keep_last key rs)"

definition drop_duplicates :: "string list \<Rightarrow> dataframe \<Rightarrow> error + dataframe" where
  "drop_duplicates cs df =
     (if list_all (\<lambda>c. c \<in> set (columns df)) cs
      then Inr (df\<lparr>rows := keep_last (\<lambda>r. map (cell_of (columns df) r) cs) (rows df)\<rparr>)
      else Inl KeyError)"

text \<open>
  The merge of the program, written out twice in the source (\<^verbatim>\<open>save_posts_to_csv\<close> and
  \<^verbatim>\<open>main\<close>):
  \<^verbatim>\<open>pd.concat([existing, incoming]).drop_duplicates(subset=['Title', 'Text'], keep='last')\<close>
\<close>

definition concat_drop_duplicates :: "dataframe \<Rightarrow> dataframe \<Rightarrow> error + dataframe" where
  "concat_drop_duplicates existing incoming =
     drop_duplicates [''Title'', ''Text''] (pd_concat existing incoming)"

text \<open>The identity of a post for deduplication: its cells under Title and Text.\<close>

definition identity :: "string list \<Rightarrow> row \<Rightarrow> cell list" where
  "identity cols r = map (cell_of cols r) [''Title'', ''Text'']"


section \<open>The durable file\<close>

text \<open>
  \<^verbatim>\<open>reddit_posts.csv\<close> either does not exist (\<open>None\<close>) or has some content. Content that
  pandas can parse is represented by the frame it parses to; \<open>Unparseable\<close> is content on
  which \<^verbatim>\<open>pd.read_csv\<close> raises, such as a file of zero bytes. Writing a frame is taken to
  leave content that parses to that frame. This is so for a frame that was itself read from
  a file of text columns; a frame fresh from the collector reads back with its dates as text
  and its empty strings as missing, which this representation does not show.
\<close>

datatype file_content = Csv dataframe | Unparseable

fun read_csv :: "file_content \<Rightarrow> error + dataframe" where
  "read_csv (Csv df) = Inr df"
| "read_csv Unparseable = Inl ParserError"

definition to_csv :: "dataframe \<Rightarrow> file_content" where
  "to_csv df = Csv df"

text \<open>
  \<^verbatim>\<open>save_posts_to_csv(posts_df)\<close> returns the new state of the file. It rebinds its local
  \<^verbatim>\<open>posts_df\<close>, so the caller's frame is not changed.
\<close>

definition save_posts_to_csv :: "dataframe \<Rightarrow> file_content option \<Rightarrow> error + file_content option" where
  "save_posts_to_csv posts_df file =
     (case file of
        Some content \<Rightarrow>
          (case read_csv content of
             Inl e \<Rightarrow> Inl e
           | Inr existing_data \<Rightarrow>
               (case concat_drop_duplicates existing_data posts_df of
                  Inl e \<Rightarrow> Inl e
                | Inr merged \<Rightarrow> Inr (Some (to_csv merged))))
      | None \<Rightarrow> Inr (Some (to_csv posts_df)))"

definition load_posts_from_csv :: "file_content option \<Rightarrow> error + dataframe" where
  "load_posts_from_csv file =
     (case file of
        Some content \<Rightarrow> read_csv content
      | None \<Rightarrow> Inr (DataFrame [] [''Title'', ''Text'', ''Date'']))"







text \<open>The identities the file holds: none when it is absent or cannot be parsed.\<close>

definition stored_identities :: "file_content option \<Rightarrow> cell list set" where
  "stored_identities file =
     (case file of
        Some (Csv df) \<Rightarrow> set (map (identity (columns df)) (rows df))
      | _ \<Rightarrow> {})"

section \<open>The windowed collector\<close>

text \<open>
  A submission as the feed delivers it. \<^verbatim>\<open>subreddit.new(limit=None)\<close> is a generator: each
  step yields a submission or raises, and the end of the list is the end of the feed.
\<close>

record submission =
  title :: string
  selftext :: string
  created_utc :: real

datatype fetch = Yield submission | Raise

text \<open>The entry appended for a submission: \<^verbatim>\<open>[submission.title, submission.selftext, post_date]\<close>\<close>

definition post_row :: "submission \<Rightarrow> int \<Rightarrow> row" where
  "post_row s post_date = [Str (title s), Str (selftext s), Day post_date]"

text \<open>
  The variables of the loop of \<^verbatim>\<open>get_reddit_posts_for_date\<close>: the list \<^verbatim>\<open>posts_data\<close>, the
  file, the number of submissions taken from the generator and the seconds slept.
\<close>

record run =
  posts_data :: "row list"
  disk :: "file_content option"
  pulled :: nat
  slept :: nat

text \<open>
  The \<^verbatim>\<open>for\<close> loop. \<open>local_date\<close> stands for
  \<^verbatim>\<open>dt.datetime.fromtimestamp(t).date()\<close>, which depends on the host's time zone. The result
  is the exception that left the loop, if any, and the variables at that moment.
\<close>

fun collect_loop ::
  "(real \<Rightarrow> int) \<Rightarrow> int \<Rightarrow> int \<Rightarrow> int \<Rightarrow> fetch list \<Rightarrow> run \<Rightarrow> error option \<times> run" where
  "collect_loop local_date start_date end_date batch_size [] st = (None, st)"
| "collect_loop local_date start_date end_date batch_size (Raise # src) st = (Some SourceError, st)"
| "collect_loop local_date start_date end_date batch_size (Yield s # src) st =
     (let st1 = st\<lparr>pulled := Suc (pulled st)\<rparr>;
          post_date = local_date (created_utc s)
      in if post_date < start_date then (None, st1)
         else if start_date \<le> post_date \<and> post_date \<le> end_date then
           (let st2 = st1\<lparr>posts_data := posts_data st1 @ [post_row s post_date]\<rparr>
            in if batch_size = 0 then (Some ZeroDivisionError, st2)
               else if int (length (posts_data st2)) mod batch_size = 0 then
                 (case save_posts_to_csv (DataFrame (posts_data st2) [''Title'', ''Text'', ''Date'']) (disk st2) of
                    Inl e \<Rightarrow> (Some e, st2)
                  | Inr file \<Rightarrow>
                      collect_loop local_date start_date end_date batch_size src
                        (st2\<lparr>disk := file, slept := slept st2 + 2 + 1\<rparr>))
               else collect_loop local_date start_date end_date batch_size src
                      (st2\<lparr>slept := slept st2 + 1\<rparr>))
         else collect_loop local_date start_date end_date batch_size src
                (st1\<lparr>slept := slept st1 + 1\<rparr>))"

text \<open>
  The invariant of the loop behind the batch flushes: \<^verbatim>\<open>posts_data\<close> splits into the posts
  already flushed, a whole number of batches whose identities are all in the file, and
  fewer than \<open>batch_size\<close> posts collected since.
\<close>

definition flush_invariant :: "int \<Rightarrow> run \<Rightarrow> bool" where
  "flush_invariant batch_size st =
     (\<exists>flushed pending.
        posts_data st = flushed @ pending
        \<and> int (length flushed) mod batch_size = 0
        \<and> int (length pending) < batch_size
        \<and> set (map (identity [''Title'', ''Text'', ''Date'']) flushed) \<subseteq> stored_identities (disk st))"

text \<open>
  \<^verbatim>\<open>get_reddit_posts_for_date\<close>: the loop from empty \<^verbatim>\<open>posts_data\<close>, the last save when
  anything was collected, and the frame returned. The second component is the state
  the call leaves behind (the file in particular), also when it raises.
\<close>

definition get_reddit_posts_for_date ::
  "(real \<Rightarrow> int) \<Rightarrow> fetch list \<Rightarrow> int \<Rightarrow> int \<Rightarrow> int \<Rightarrow> file_content option
     \<Rightarrow> (error + dataframe) \<times> run" where
  "get_reddit_posts_for_date local_date src start_date end_date batch_size file =
     (case collect_loop local_date start_date end_date batch_size src
             \<lparr>posts_data = [], disk = file, pulled = 0, slept = 0\<rparr> of
        (Some e, st) \<Rightarrow> (Inl e, st)
      | (None, st) \<Rightarrow>
          if posts_data st \<noteq> [] then
            (case save_posts_to_csv (DataFrame (posts_data st) [''Title'', ''Text'', ''Date'']) (disk st) of
               Inl e \<Rightarrow> (Inl e, st)
             | Inr file' \<Rightarrow>
                 (Inr (DataFrame (posts_data st) [''Title'', ''Text'', ''Date'']), st\<lparr>disk := file'\<rparr>))
          else (Inr (DataFrame (posts_data st) [''Title'', ''Text'', ''Date'']), st))"

section \<open>Sentiment aggregation\<close>

text \<open>
  \<^verbatim>\<open>analyze_sentiment\<close> wraps VADER, which is not part of the repository: \<open>score\<close> is its
  compound score of a text. VADER takes a string; on any other value it raises.
\<close>

fun analyze_sentiment :: "(string \<Rightarrow> real) \<Rightarrow> cell \<Rightarrow> error + cell" where
  "analyze_sentiment score (Str text) = Inr (Num (score text))"
| "analyze_sentiment score _ = Inl ScorerError"

text \<open>\<^verbatim>\<open>series.apply(f)\<close>: the first exception of \<open>f\<close> leaves the call.\<close>

fun apply_series :: "(cell \<Rightarrow> error + cell) \<Rightarrow> cell list \<Rightarrow> error + cell list" where
  "apply_series f [] = Inr []"
| "apply_series f (x # xs) =
     (case f x of
        Inl e \<Rightarrow> Inl e
      | Inr y \<Rightarrow> (case apply_series f xs of Inl e \<Rightarrow> Inl e | Inr ys \<Rightarrow> Inr (y # ys)))"

text \<open>\<^verbatim>\<open>df[c]\<close> reads a column, KeyError when there is none.\<close>

definition getitem :: "dataframe \<Rightarrow> string \<Rightarrow> error + cell list" where
  "getitem df c =
     (if c \<in> set (columns df) then Inr (map (\<lambda>r. cell_of (columns df) r c) (rows df))
      else Inl KeyError)"

text \<open>
  \<^verbatim>\<open>df[c] = values\<close> changes the frame in place: an existing column is overwritten, a new
  one is added as the last column. The values here are always one per row.
\<close>

definition setitem :: "dataframe \<Rightarrow> string \<Rightarrow> cell list \<Rightarrow> dataframe" where
  "setitem df c vals =
     (if c \<in> set (columns df)
      then df\<lparr>rows := map2 (\<lambda>r v. map2 (\<lambda>c' x. if c' = c then v else x) (columns df) r) (rows df) vals\<rparr>
      else \<lparr>columns = columns df @ [c], rows = map2 (\<lambda>r v. r @ [v]) (rows df) vals\<rparr>)"

text \<open>Arithmetic on float columns; a missing operand gives a missing result.\<close>

fun cell_add :: "cell \<Rightarrow> cell \<Rightarrow> cell" where
  "cell_add (Num a) (Num b) = Num (a + b)"
| "cell_add _ _ = NaN"

fun cell_div :: "cell \<Rightarrow> real \<Rightarrow> cell" where
  "cell_div (Num a) k = Num (a / k)"
| "cell_div _ k = NaN"

text \<open>The mean of a float column skips missing values; of no values at all it is missing.\<close>

fun nums :: "cell list \<Rightarrow> real list" where
  "nums [] = []"
| "nums (Num x # cs) = x # nums cs"
| "nums (_ # cs) = nums cs"

definition mean :: "cell list \<Rightarrow> cell" where
  "mean cs = (if nums cs = [] then NaN else Num (sum_list (nums cs) / real (length (nums cs))))"

text \<open>
  \<^verbatim>\<open>df.groupby(k).agg({v: 'mean'}).reset_index()\<close>: one row per distinct value of column
  \<open>k\<close> (missing keys are dropped), dates in ascending order, holding the key and the mean of
  column \<open>v\<close> over the rows with that key.
\<close>

fun day_ord :: "cell \<Rightarrow> int" where
  "day_ord (Day d) = d"
| "day_ord _ = 0"

definition groupby_mean :: "dataframe \<Rightarrow> string \<Rightarrow> string \<Rightarrow> error + dataframe" where
  "groupby_mean df k v =
     (if k \<in> set (columns df) \<and> v \<in> set (columns df) then
        (let keys = sort_key day_ord
                      (remdups (filter (\<lambda>x. x \<noteq> NaN) (map (\<lambda>r. cell_of (columns df) r k) (rows df))))
         in Inr \<lparr>columns = [k, v],
                 rows = map (\<lambda>x. [x, mean (map (\<lambda>r. cell_of (columns df) r v)
                                            (filter (\<lambda>r. cell_of (columns df) r k = x) (rows df)))])
                            keys\<rparr>)
      else Inl KeyError)"

text \<open>
  \<^verbatim>\<open>analyze_daily_sentiment(posts_df)\<close> assigns three columns to the frame it is given, which
  is the caller's object. The result is the daily series (or the exception) together with
  the caller's frame as the call leaves it.
\<close>

definition analyze_daily_sentiment ::
  "(string \<Rightarrow> real) \<Rightarrow> dataframe \<Rightarrow> (error + dataframe) \<times> dataframe" where
  "analyze_daily_sentiment score posts_df =
     (case getitem posts_df ''Title'' of
        Inl e \<Rightarrow> (Inl e, posts_df)
      | Inr titles \<Rightarrow>
     (case apply_series (analyze_sentiment score) titles of
        Inl e \<Rightarrow> (Inl e, posts_df)
      | Inr sentiment_title \<Rightarrow>
     (let df1 = setitem posts_df ''Sentiment_Title'' sentiment_title in
      case getitem df1 ''Text'' of
        Inl e \<Rightarrow> (Inl e, df1)
      | Inr texts \<Rightarrow>
     (case apply_series (analyze_sentiment score) texts of
        Inl e \<Rightarrow> (Inl e, df1)
      | Inr sentiment_text \<Rightarrow>
     (let df2 = setitem df1 ''Sentiment_Text'' sentiment_text in
      case getitem df2 ''Sentiment_Title'' of
        Inl e \<Rightarrow> (Inl e, df2)
      | Inr a \<Rightarrow>
     (case getitem df2 ''Sentiment_Text'' of
        Inl e \<Rightarrow> (Inl e, df2)
      | Inr b \<Rightarrow>
     (let df3 = setitem df2 ''Overall_Sentiment'' (map (\<lambda>x. cell_div x 2) (map2 cell_add a b))
      in (groupby_mean df3 ''Date'' ''Overall_Sentiment'', df3))))))))"

section \<open>The pipeline driver\<close>

text \<open>\<^verbatim>\<open>df.empty\<close>: some axis has length zero.\<close>

definition df_empty :: "dataframe \<Rightarrow> bool" where
  "df_empty df = (columns df = [] \<or> rows df = [])"

text \<open>
  \<^verbatim>\<open>main\<close>, with \<open>today\<close> for \<^verbatim>\<open>dt.date.today()\<close>. The result is the series handed to
  \<^verbatim>\<open>plot_sentiment\<close> (or the exception that ended the run) and the file the run leaves.
\<close>

definition main ::
  "(string \<Rightarrow> real) \<Rightarrow> (real \<Rightarrow> int) \<Rightarrow> fetch list \<Rightarrow> int \<Rightarrow> file_content option
     \<Rightarrow> (error + dataframe) \<times> file_content option" where
  "main score local_date src today file =
     (let end_date = today;
          start_date = end_date - 50
      in case load_posts_from_csv file of
           Inl e \<Rightarrow> (Inl e, file)
         | Inr stored_posts_df \<Rightarrow>
        (case get_reddit_posts_for_date local_date src start_date end_date 100 file of
           (Inl e, st) \<Rightarrow> (Inl e, disk st)
         | (Inr posts_df, st) \<Rightarrow>
        (case (if \<not> df_empty posts_df then concat_drop_duplicates stored_posts_df posts_df
               else Inr posts_df) of
           Inl e \<Rightarrow> (Inl e, disk st)
         | Inr posts_df1 \<Rightarrow>
        (case analyze_daily_sentiment score posts_df1 of
           (Inl e, posts_df2) \<Rightarrow> (Inl e, disk st)
         | (Inr daily_sentiment, posts_df2) \<Rightarrow>
        (case save_posts_to_csv posts_df2 (disk st) of
           Inl e \<Rightarrow> (Inl e, disk st)
         | Inr file' \<Rightarrow> (Inr daily_sentiment, file'))))))"

section \<open>Merge and deduplication\<close>

lemma cell_of_reindexed:
  "set cols \<subseteq> set cols' \<Longrightarrow> cell_of cols' (map (cell_of cols r) cols') c = cell_of cols r c"
proof (cases "c \<in> set cols'")
  case True
  then show ?thesis by (simp add: cell_of_def map_of_zip_map)
next
  case False
  assume sub: "set cols \<subseteq> set cols'"
  have "map_of (zip cols r) c = None"
  proof (cases "map_of (zip cols r) c")
    case (Some v)
    then have "(c, v) \<in> set (zip cols r)" by (rule map_of_SomeD)
    then have "c \<in> set cols" by (rule set_zip_leftD)
    with sub False show ?thesis by blast
  qed simp
  then show ?thesis using False by (simp add: cell_of_def map_of_zip_map)
qed

lemma reindex_same:
  assumes "distinct cols" "length r = length cols"
  shows "map (cell_of cols r) cols = r"
proof (rule nth_equalityI)
  show "length (map (cell_of cols r) cols) = length r" using assms by simp
next
  fix i assume "i < length (map (cell_of cols r) cols)"
  then have i: "i < length cols" by simp
  then have "map_of (zip cols r) (cols ! i) = Some (r ! i)"
    using assms by (simp add: map_of_zip_nth)
  then show "map (cell_of cols r) cols ! i = r ! i"
    using i by (simp add: cell_of_def)
qed

lemma keep_last_keys: "set (map key (keep_last key rs)) = set (map key rs)"
  by (induction rs) auto

lemma keep_last_distinct: "distinct (map key (keep_last key rs))"
proof (induction rs)
  case (Cons r rs)
  then show ?case using keep_last_keys [of key rs] by auto
qed simp


lemma find_snoc:
  "find P (xs @ [x]) = (case find P xs of Some y \<Rightarrow> Some y | None \<Rightarrow> if P x then Some x else None)"
  by (induction xs) auto

lemma keep_last_find:
  "find (\<lambda>r. key r = k) (keep_last key rs) = find (\<lambda>r. key r = k) (rev rs)"
proof (induction rs)
  case (Cons r rs)
  show ?case
  proof (cases "key r \<in> set (map key rs)")
    case True
    then have "key r = k \<Longrightarrow> find (\<lambda>r. key r = k) (rev rs) \<noteq> None"
      by (auto simp: find_None_iff)
    then show ?thesis using True Cons
      by (auto simp: find_snoc split: option.splits)
  next
    case False
    then have "\<forall>x\<in>set rs. key x \<noteq> key r" by (auto simp: image_iff)
    then have "key r = k \<Longrightarrow> find (\<lambda>r. key r = k) (rev rs) = None"
      by (simp add: find_None_iff)
    then show ?thesis using False Cons
      by (auto simp: find_snoc split: option.splits)
  qed
qed simp

lemma keep_last_snoc:
  "distinct (map key rs) \<Longrightarrow> keep_last key (rs @ [p]) = filter (\<lambda>r. key r \<noteq> key p) rs @ [p]"
  by (induction rs) auto

lemma length_filter_other:
  "distinct (map key rs) \<Longrightarrow> q \<in> set rs \<Longrightarrow> Suc (length (filter (\<lambda>r. key r \<noteq> key q) rs)) = length rs"
proof (induction rs)
  case (Cons r rs)
  show ?case
  proof (cases "key r = key q")
    case True
    then have "\<forall>x\<in>set rs. key x \<noteq> key q" using Cons.prems by (auto simp: image_iff) 
    then have "filter (\<lambda>r. key r \<noteq> key q) rs = rs" by (simp add: filter_id_conv)
    then show ?thesis using True by simp
  next
    case False
    then show ?thesis using Cons by auto
  qed
qed simp




lemma concat_same_columns:
  assumes "distinct cols" "\<forall>r\<in>set a. length r = length cols" "\<forall>r\<in>set b. length r = length cols"
  shows "pd_concat (DataFrame a cols) (DataFrame b cols) = DataFrame (a @ b) cols"
proof -
  have "map (\<lambda>r. map (cell_of cols r) cols) a = a"
    using assms by (simp add: map_idI reindex_same)
  moreover have "map (\<lambda>r. map (cell_of cols r) cols) b = b"
    using assms by (simp add: map_idI reindex_same)
  ultimately show ?thesis
    by (simp add: pd_concat_def DataFrame_def reindex_def)
qed


lemma drop_duplicates_identity:
  assumes "''Title'' \<in> set cols" "''Text'' \<in> set cols"
  shows "drop_duplicates [''Title'', ''Text''] (DataFrame rs cols)
           = Inr (DataFrame (keep_last (identity cols) rs) cols)"
proof -
  have "(\<lambda>r. map (cell_of cols r) [''Title'', ''Text'']) = identity cols"
    by (rule ext) (simp add: identity_def)
  then show ?thesis using assms
    by (simp add: drop_duplicates_def DataFrame_def)
qed

lemma merge_same_columns:
  assumes "distinct cols" "''Title'' \<in> set cols" "''Text'' \<in> set cols"
    and "\<forall>r\<in>set a. length r = length cols" "\<forall>r\<in>set b. length r = length cols"
  shows "concat_drop_duplicates (DataFrame a cols) (DataFrame b cols)
           = Inr (DataFrame (keep_last (identity cols) (a @ b)) cols)"
  using assms by (simp add: concat_drop_duplicates_def concat_same_columns drop_duplicates_identity)

text \<open>
  Claim C1. Merging a store whose entries have pairwise different identities with a single
  post \<open>p\<close> that has the identity of a stored post \<open>q\<close> gives a store of the same size in
  which \<open>p\<close> is the only entry of that identity. In general the merge of \<open>existing\<close> with
  \<open>incoming\<close> has one entry per identity, and the entry of an identity is its last occurrence
  in \<open>existing\<close> followed by \<open>incoming\<close>.
\<close>

theorem merge_last_write_wins:
  assumes cols: "distinct cols" "''Title'' \<in> set cols" "''Text'' \<in> set cols"
    and wf: "\<forall>r\<in>set (S @ [p] @ existing @ incoming). length r = length cols"
    and S: "distinct (map (identity cols) S)"
    and q: "q \<in> set S" "identity cols p = identity cols q"
  shows "(\<exists>M. concat_drop_duplicates (DataFrame S cols) (DataFrame [p] cols) = Inr M
            \<and> columns M = cols \<and> length (rows M) = length S \<and> p \<in> set (rows M)
            \<and> (\<forall>r\<in>set (rows M). identity cols r = identity cols p \<longrightarrow> r = p))
       \<and> (\<exists>M. concat_drop_duplicates (DataFrame existing cols) (DataFrame incoming cols) = Inr M
            \<and> columns M = cols \<and> distinct (map (identity cols) (rows M))
            \<and> (\<forall>k. find (\<lambda>r. identity cols r = k) (rows M)
                     = find (\<lambda>r. identity cols r = k) (rev (existing @ incoming))))"
proof (intro conjI)
  let ?M = "DataFrame (filter (\<lambda>r. identity cols r \<noteq> identity cols p) S @ [p]) cols"
  have "concat_drop_duplicates (DataFrame S cols) (DataFrame [p] cols)
          = Inr (DataFrame (keep_last (identity cols) (S @ [p])) cols)"
    using cols wf by (intro merge_same_columns) auto
  then have m: "concat_drop_duplicates (DataFrame S cols) (DataFrame [p] cols) = Inr ?M"
    using S by (simp add: keep_last_snoc)
  have len: "length (rows ?M) = length S"
    using length_filter_other [OF S q(1)] q(2) by (simp add: DataFrame_def)
  have "\<forall>r\<in>set (rows ?M). identity cols r = identity cols p \<longrightarrow> r = p"
    by (auto simp: DataFrame_def)
  with m len show "\<exists>M. concat_drop_duplicates (DataFrame S cols) (DataFrame [p] cols) = Inr M
            \<and> columns M = cols \<and> length (rows M) = length S \<and> p \<in> set (rows M)
            \<and> (\<forall>r\<in>set (rows M). identity cols r = identity cols p \<longrightarrow> r = p)"
    by (intro exI [of _ ?M]) (simp add: DataFrame_def)
next
  let ?M = "DataFrame (keep_last (identity cols) (existing @ incoming)) cols"
  have "concat_drop_duplicates (DataFrame existing cols) (DataFrame incoming cols) = Inr ?M"
    using cols wf by (intro merge_same_columns) auto
  then show "\<exists>M. concat_drop_duplicates (DataFrame existing cols) (DataFrame incoming cols) = Inr M
            \<and> columns M = cols \<and> distinct (map (identity cols) (rows M))
            \<and> (\<forall>k. find (\<lambda>r. identity cols r = k) (rows M)
                     = find (\<lambda>r. identity cols r = k) (rev (existing @ incoming)))"
    by (intro exI [of _ ?M]) (simp add: DataFrame_def keep_last_distinct keep_last_find)
qed

theorem merge_last_write_wins_witness:
  "\<exists>M. concat_drop_duplicates
          (DataFrame [[Str ''a'', Str ''b'', Day 1], [Str ''c'', Str ''d'', Day 2]] [''Title'', ''Text'', ''Date''])
          (DataFrame [[Str ''a'', Str ''b'', Day 5]] [''Title'', ''Text'', ''Date'']) = Inr M
       \<and> length (rows M) = 2 \<and> [Str ''a'', Str ''b'', Day 5] \<in> set (rows M)"
proof -
  let ?cols = "[''Title'', ''Text'', ''Date'']"
  let ?S = "[[Str ''a'', Str ''b'', Day 1], [Str ''c'', Str ''d'', Day 2]]"
  let ?p = "[Str ''a'', Str ''b'', Day 5]"
  let ?q = "[Str ''a'', Str ''b'', Day 1]"
  have c: "distinct ?cols" "''Title'' \<in> set ?cols" "''Text'' \<in> set ?cols" by simp_all
  have wf: "\<forall>r\<in>set (?S @ [?p] @ ?S @ [?p]). length r = length ?cols" by simp
  have d: "distinct (map (identity ?cols) ?S)" by (simp add: identity_def cell_of_def)
  have q: "?q \<in> set ?S" "identity ?cols ?p = identity ?cols ?q"
    by (simp_all add: identity_def cell_of_def)
  from merge_last_write_wins [OF c wf d q] obtain M where
    "concat_drop_duplicates (DataFrame ?S ?cols) (DataFrame [?p] ?cols) = Inr M"
    "length (rows M) = length ?S" "?p \<in> set (rows M)"
    by blast
  then show ?thesis by (intro exI [of _ M]) simp
qed









section \<open>The collector: window, early stop and batch flushes\<close>

lemma identity_reindexed:
  assumes "set cols \<subseteq> set cols'"
  shows "identity cols' (map (cell_of cols r) cols') = identity cols r"
  using assms by (simp add: identity_def cell_of_reindexed)

lemma save_posts_to_csv_parseable:
  assumes "file \<noteq> Some Unparseable" "''Title'' \<in> set (columns df)" "''Text'' \<in> set (columns df)"
  shows "\<exists>f. save_posts_to_csv df file = Inr (Some (Csv f))
           \<and> stored_identities file \<union> set (map (identity (columns df)) (rows df))
               \<subseteq> set (map (identity (columns f)) (rows f))"
proof (cases "file")
  case None
  then show ?thesis
    by (simp add: save_posts_to_csv_def to_csv_def stored_identities_def)
next
  case (Some content)
  with assms(1) obtain ex where ex: "content = Csv ex" by (cases content) auto
  let ?cols = "columns ex @ filter (\<lambda>c. c \<notin> set (columns ex)) (columns df)"
  let ?rs = "reindex ?cols ex @ reindex ?cols df"
  let ?f = "\<lparr>columns = ?cols, rows = keep_last (identity ?cols) ?rs\<rparr>"
  have idf: "(\<lambda>r. [cell_of ?cols r ''Title'', cell_of ?cols r ''Text'']) = identity ?cols"
    by (rule ext) (simp add: identity_def)
  have "concat_drop_duplicates ex df = Inr ?f"
    using assms(2,3) by (simp add: concat_drop_duplicates_def pd_concat_def drop_duplicates_def Let_def idf)
  then have sv: "save_posts_to_csv df file = Inr (Some (Csv ?f))"
    using Some ex by (simp add: save_posts_to_csv_def to_csv_def)
  have k1: "map (identity ?cols) (reindex ?cols ex) = map (identity (columns ex)) (rows ex)"
    by (simp add: reindex_def identity_reindexed comp_def del: map_append)
  have "set (columns df) \<subseteq> set ?cols" by auto
  then have k2: "map (identity ?cols) (reindex ?cols df) = map (identity (columns df)) (rows df)"
    by (simp add: reindex_def identity_reindexed comp_def del: map_append)
  have "set (map (identity ?cols) (keep_last (identity ?cols) ?rs)) = set (map (identity ?cols) ?rs)"
    by (rule keep_last_keys)
  also have "\<dots> = set (map (identity (columns ex)) (rows ex)) \<union> set (map (identity (columns df)) (rows df))"
    using k1 k2 by (metis map_append set_append)
  finally have "stored_identities file \<union> set (map (identity (columns df)) (rows df))
               \<subseteq> set (map (identity (columns ?f)) (rows ?f))"
    using Some ex by (simp add: stored_identities_def)
  with sv show ?thesis by blast
qed

lemma step_break:
  "ld (created_utc x) < s \<Longrightarrow>
   collect_loop ld s e b (Yield x # src) st = (None, st\<lparr>pulled := Suc (pulled st)\<rparr>)"
  by (simp add: Let_def)

lemma step_skip:
  "s \<le> ld (created_utc x) \<Longrightarrow> e < ld (created_utc x) \<Longrightarrow>
   collect_loop ld s e b (Yield x # src) st
     = collect_loop ld s e b src (st\<lparr>pulled := Suc (pulled st), slept := slept st + 1\<rparr>)"
  by (simp add: Let_def)

lemma step_keep:
  "s \<le> ld (created_utc x) \<Longrightarrow> ld (created_utc x) \<le> e \<Longrightarrow> b \<noteq> 0 \<Longrightarrow>
   int (Suc (length (posts_data st))) mod b \<noteq> 0 \<Longrightarrow>
   collect_loop ld s e b (Yield x # src) st
     = collect_loop ld s e b src
         (st\<lparr>pulled := Suc (pulled st),
             posts_data := posts_data st @ [post_row x (ld (created_utc x))],
             slept := slept st + 1\<rparr>)"
  by (simp add: Let_def)

lemma step_flush:
  "s \<le> ld (created_utc x) \<Longrightarrow> ld (created_utc x) \<le> e \<Longrightarrow> b \<noteq> 0 \<Longrightarrow>
   int (Suc (length (posts_data st))) mod b = 0 \<Longrightarrow>
   save_posts_to_csv (DataFrame (posts_data st @ [post_row x (ld (created_utc x))])
                        [''Title'', ''Text'', ''Date'']) (disk st) = Inr file' \<Longrightarrow>
   collect_loop ld s e b (Yield x # src) st
     = collect_loop ld s e b src
         (st\<lparr>pulled := Suc (pulled st),
             posts_data := posts_data st @ [post_row x (ld (created_utc x))],
             disk := file', slept := slept st + 2 + 1\<rparr>)"
  by (simp add: Let_def)

lemma pending_grows:
  assumes "0 < b" "int F mod b = 0" "int P < b" "int (Suc (F + P)) mod b \<noteq> 0"
  shows "int (Suc P) < b"
proof (rule ccontr)
  assume "\<not> int (Suc P) < b"
  with assms(3) have eq: "int (Suc P) = b" by simp
  have "int (Suc (F + P)) = int F + int (Suc P)" by simp
  then have "int (Suc (F + P)) mod b = (int F mod b + int (Suc P) mod b) mod b"
    by (simp only: mod_add_eq)
  also have "\<dots> = 0" using assms(2) eq by simp
  finally show False using assms(4) by simp
qed

lemma flush_invariant_kept:
  assumes "flush_invariant b st" "posts_data st' = posts_data st"
    "stored_identities (disk st) \<subseteq> stored_identities (disk st')"
  shows "flush_invariant b st'"
proof -
  from assms(1) obtain flushed pending where fp: "posts_data st = flushed @ pending"
    "int (length flushed) mod b = 0" "int (length pending) < b"
    "set (map (identity [''Title'', ''Text'', ''Date'']) flushed) \<subseteq> stored_identities (disk st)"
    unfolding flush_invariant_def by (elim exE conjE)
  have "posts_data st' = flushed @ pending \<and> int (length flushed) mod b = 0
      \<and> int (length pending) < b
      \<and> set (map (identity [''Title'', ''Text'', ''Date'']) flushed) \<subseteq> stored_identities (disk st')"
    using fp assms(2,3) by (simp only: order_trans [OF fp(4) assms(3)] simp_thms)
  then show ?thesis unfolding flush_invariant_def by (intro exI)
qed

lemma flush_invariant_pending:
  assumes "0 < b" "flush_invariant b st" "posts_data st' = posts_data st @ [r]"
    "int (Suc (length (posts_data st))) mod b \<noteq> 0" "disk st' = disk st"
  shows "flush_invariant b st'"
proof -
  from assms(2) obtain flushed pending where fp: "posts_data st = flushed @ pending"
    "int (length flushed) mod b = 0" "int (length pending) < b"
    "set (map (identity [''Title'', ''Text'', ''Date'']) flushed) \<subseteq> stored_identities (disk st)"
    unfolding flush_invariant_def by (elim exE conjE)
  have "int (Suc (length flushed + length pending)) mod b \<noteq> 0"
    using assms(4) fp(1) by simp
  then have "int (Suc (length pending)) < b"
    using pending_grows [OF assms(1) fp(2,3)] by simp
  then have "posts_data st' = flushed @ (pending @ [r]) \<and> int (length flushed) mod b = 0
      \<and> int (length (pending @ [r])) < b
      \<and> set (map (identity [''Title'', ''Text'', ''Date'']) flushed) \<subseteq> stored_identities (disk st')"
    using fp assms(3,5) by simp
  then show ?thesis unfolding flush_invariant_def by (intro exI)
qed

lemma flush_invariant_flushed:
  assumes "0 < b" "int (length (posts_data st')) mod b = 0"
    "set (map (identity [''Title'', ''Text'', ''Date'']) (posts_data st')) \<subseteq> stored_identities (disk st')"
  shows "flush_invariant b st'"
proof -
  have "posts_data st' = posts_data st' @ [] \<and> int (length (posts_data st')) mod b = 0
      \<and> int (length ([] :: row list)) < b
      \<and> set (map (identity [''Title'', ''Text'', ''Date'']) (posts_data st')) \<subseteq> stored_identities (disk st')"
    using assms by simp
  then show ?thesis unfolding flush_invariant_def by (intro exI)
qed

lemma save_batch:
  assumes "d \<noteq> Some Unparseable"
  shows "\<exists>f. save_posts_to_csv (DataFrame pd [''Title'', ''Text'', ''Date'']) d = Inr (Some (Csv f))
           \<and> stored_identities d \<subseteq> stored_identities (Some (Csv f))
           \<and> set (map (identity [''Title'', ''Text'', ''Date'']) pd) \<subseteq> stored_identities (Some (Csv f))"
proof -
  let ?df = "DataFrame pd [''Title'', ''Text'', ''Date'']"
  have "\<exists>f. save_posts_to_csv ?df d = Inr (Some (Csv f))
           \<and> stored_identities d \<union> set (map (identity (columns ?df)) (rows ?df))
               \<subseteq> set (map (identity (columns f)) (rows f))"
    using assms by (intro save_posts_to_csv_parseable) (simp_all add: DataFrame_def)
  then obtain f where "save_posts_to_csv ?df d = Inr (Some (Csv f))"
    "stored_identities d \<union> set (map (identity (columns ?df)) (rows ?df))
               \<subseteq> set (map (identity (columns f)) (rows f))"
    by blast
  then have "save_posts_to_csv ?df d = Inr (Some (Csv f))
           \<and> stored_identities d \<subseteq> stored_identities (Some (Csv f))
           \<and> set (map (identity [''Title'', ''Text'', ''Date'']) pd) \<subseteq> stored_identities (Some (Csv f))"
    by (simp add: DataFrame_def stored_identities_def)
  then show ?thesis by blast
qed

lemma collect_loop_yields:
  assumes "0 < b"
    and "disk st \<noteq> Some Unparseable"
    and "flush_invariant b st"
  shows "\<exists>st'. collect_loop ld s e b (map Yield subs) st = (None, st')
      \<and> posts_data st' = posts_data st @ map (\<lambda>x. post_row x (ld (created_utc x)))
            (filter (\<lambda>x. ld (created_utc x) \<le> e) (takeWhile (\<lambda>x. s \<le> ld (created_utc x)) subs))
      \<and> pulled st' = pulled st + min (length subs) (Suc (length (takeWhile (\<lambda>x. s \<le> ld (created_utc x)) subs)))
      \<and> disk st' \<noteq> Some Unparseable
      \<and> stored_identities (disk st) \<subseteq> stored_identities (disk st')
      \<and> flush_invariant b st'"
  using assms(2-)
proof (induction subs arbitrary: st)
  case Nil
  then show ?case by simp
next
  case (Cons x subs)
  let ?d = "ld (created_utc x)"
  let ?raw = "[''Title'', ''Text'', ''Date'']"
  let ?rows = "\<lambda>xs. map (\<lambda>x. post_row x (ld (created_utc x)))
            (filter (\<lambda>x. ld (created_utc x) \<le> e) (takeWhile (\<lambda>x. s \<le> ld (created_utc x)) xs))"
  let ?n = "\<lambda>xs. min (length xs) (Suc (length (takeWhile (\<lambda>x. s \<le> ld (created_utc x)) xs)))"
  note b = \<open>0 < b\<close>
  then have bn: "b \<noteq> 0" by simp
  consider (brk) "?d < s" | (skip) "s \<le> ?d" "e < ?d"
    | (keep) "s \<le> ?d" "?d \<le> e" "int (Suc (length (posts_data st))) mod b \<noteq> 0"
    | (flush) "s \<le> ?d" "?d \<le> e" "int (Suc (length (posts_data st))) mod b = 0"
    by linarith
  then show ?case
  proof cases
    case brk
    let ?st = "st\<lparr>pulled := Suc (pulled st)\<rparr>"
    have inv: "flush_invariant b ?st"
      using Cons.prems(2) by (rule flush_invariant_kept) simp_all
    have "collect_loop ld s e b (map Yield (x # subs)) st = (None, ?st)"
      using brk by (simp only: list.map step_break)
    moreover have "?rows (x # subs) = []" "?n (x # subs) = 1" using brk by simp_all
    ultimately show ?thesis using inv Cons.prems(1)
      by (intro exI [of _ ?st]) simp
  next
    case skip
    let ?st = "st\<lparr>pulled := Suc (pulled st), slept := slept st + 1\<rparr>"
    have p: "disk ?st \<noteq> Some Unparseable" using Cons.prems(1) by simp
    have inv: "flush_invariant b ?st"
      using Cons.prems(2) by (rule flush_invariant_kept) simp_all
    from Cons.IH [OF p inv]
    obtain st' where st': "collect_loop ld s e b (map Yield subs) ?st = (None, st')"
      "posts_data st' = posts_data ?st @ ?rows subs"
      "pulled st' = pulled ?st + ?n subs"
      "disk st' \<noteq> Some Unparseable"
      "stored_identities (disk ?st) \<subseteq> stored_identities (disk st')"
      "flush_invariant b st'"
      by blast
    have "collect_loop ld s e b (map Yield (x # subs)) st = (None, st')"
      using st'(1) by (simp only: list.map step_skip [where ld=ld and x=x and s=s and e=e, OF skip])
    moreover have "?rows (x # subs) = ?rows subs" "?n (x # subs) = Suc (?n subs)"
      using skip by simp_all
    ultimately show ?thesis using st'(2-)
      by (intro exI [of _ st']) simp
  next
    case keep
    let ?st = "st\<lparr>pulled := Suc (pulled st),
             posts_data := posts_data st @ [post_row x ?d],
             slept := slept st + 1\<rparr>"
    have p: "disk ?st \<noteq> Some Unparseable" using Cons.prems(1) by simp
    have inv: "flush_invariant b ?st"
      using b Cons.prems(2) _ keep(3) by (rule flush_invariant_pending) simp_all
    from Cons.IH [OF p inv]
    obtain st' where st': "collect_loop ld s e b (map Yield subs) ?st = (None, st')"
      "posts_data st' = posts_data ?st @ ?rows subs"
      "pulled st' = pulled ?st + ?n subs"
      "disk st' \<noteq> Some Unparseable"
      "stored_identities (disk ?st) \<subseteq> stored_identities (disk st')"
      "flush_invariant b st'"
      by blast
    have "collect_loop ld s e b (map Yield (x # subs)) st = (None, st')"
      using st'(1)
      by (simp only: list.map step_keep [where ld=ld and x=x and s=s and e=e, OF keep(1,2) bn keep(3)])
    moreover have "?rows (x # subs) = post_row x ?d # ?rows subs" "?n (x # subs) = Suc (?n subs)"
      using keep by simp_all
    ultimately show ?thesis using st'(2-)
      by (intro exI [of _ st']) simp
  next
    case flush
    let ?pd = "posts_data st @ [post_row x ?d]"
    from save_batch [OF Cons.prems(1), of ?pd]
    obtain f where f: "save_posts_to_csv (DataFrame ?pd ?raw) (disk st) = Inr (Some (Csv f))"
      "stored_identities (disk st) \<subseteq> stored_identities (Some (Csv f))"
      "set (map (identity ?raw) ?pd) \<subseteq> stored_identities (Some (Csv f))"
      by blast
    let ?st = "st\<lparr>pulled := Suc (pulled st), posts_data := ?pd,
             disk := Some (Csv f), slept := slept st + 2 + 1\<rparr>"
    have p: "disk ?st \<noteq> Some Unparseable" by simp
    have inv: "flush_invariant b ?st"
      using b by (rule flush_invariant_flushed) (use flush(3) f(3) in simp_all)
    from Cons.IH [OF p inv]
    obtain st' where st': "collect_loop ld s e b (map Yield subs) ?st = (None, st')"
      "posts_data st' = posts_data ?st @ ?rows subs"
      "pulled st' = pulled ?st + ?n subs"
      "disk st' \<noteq> Some Unparseable"
      "stored_identities (disk ?st) \<subseteq> stored_identities (disk st')"
      "flush_invariant b st'"
      by blast
    have "collect_loop ld s e b (map Yield (x # subs)) st = (None, st')"
      using st'(1)
      by (simp only: list.map step_flush [where ld=ld and x=x and s=s and e=e, OF flush(1,2) bn flush(3) f(1)])
    moreover have "?rows (x # subs) = post_row x ?d # ?rows subs" "?n (x # subs) = Suc (?n subs)"
      using flush by simp_all
    moreover have "stored_identities (disk st) \<subseteq> stored_identities (disk st')"
      using f(2) st'(5) by simp
    ultimately show ?thesis using st'(2-4,6)
      by (intro exI [of _ st']) simp
  qed
qed



lemma flush_invariant_start:
  "0 < b \<Longrightarrow> flush_invariant b \<lparr>posts_data = [], disk = d, pulled = 0, slept = 0\<rparr>"
  by (rule flush_invariant_flushed) simp_all

lemma get_reddit_posts_for_date_yields:
  assumes "0 < b" "d \<noteq> Some Unparseable"
  shows "\<exists>st. get_reddit_posts_for_date ld (map Yield subs) s e b d
               = (Inr (DataFrame (posts_data st) [''Title'', ''Text'', ''Date'']), st)
      \<and> posts_data st = map (\<lambda>x. post_row x (ld (created_utc x)))
            (filter (\<lambda>x. ld (created_utc x) \<le> e) (takeWhile (\<lambda>x. s \<le> ld (created_utc x)) subs))
      \<and> pulled st = min (length subs) (Suc (length (takeWhile (\<lambda>x. s \<le> ld (created_utc x)) subs)))
      \<and> disk st \<noteq> Some Unparseable
      \<and> stored_identities d \<subseteq> stored_identities (disk st)"
proof -
  let ?raw = "[''Title'', ''Text'', ''Date'']"
  let ?st0 = "\<lparr>posts_data = [], disk = d, pulled = 0, slept = 0\<rparr>"
  have p: "disk ?st0 \<noteq> Some Unparseable" using assms(2) by simp
  from collect_loop_yields [OF assms(1) p flush_invariant_start [OF assms(1)], of ld s e subs]
  obtain st' where st': "collect_loop ld s e b (map Yield subs) ?st0 = (None, st')"
      "posts_data st' = posts_data ?st0 @ map (\<lambda>x. post_row x (ld (created_utc x)))
            (filter (\<lambda>x. ld (created_utc x) \<le> e) (takeWhile (\<lambda>x. s \<le> ld (created_utc x)) subs))"
      "pulled st' = pulled ?st0 + min (length subs) (Suc (length (takeWhile (\<lambda>x. s \<le> ld (created_utc x)) subs)))"
      "disk st' \<noteq> Some Unparseable"
      "stored_identities (disk ?st0) \<subseteq> stored_identities (disk st')"
    by (elim exE conjE)
  show ?thesis
  proof (cases "posts_data st' = []")
    case True
    then have "get_reddit_posts_for_date ld (map Yield subs) s e b d
               = (Inr (DataFrame (posts_data st') ?raw), st')"
      using st'(1) by (simp add: get_reddit_posts_for_date_def)
    then show ?thesis using st'(2-)
      by (intro exI [of _ st']) simp
  next
    case False
    from save_batch [OF st'(4), of "posts_data st'"]
    obtain f where f: "save_posts_to_csv (DataFrame (posts_data st') ?raw) (disk st') = Inr (Some (Csv f))"
      "stored_identities (disk st') \<subseteq> stored_identities (Some (Csv f))"
      by (elim exE conjE)
    let ?st = "st'\<lparr>disk := Some (Csv f)\<rparr>"
    have "get_reddit_posts_for_date ld (map Yield subs) s e b d
               = (Inr (DataFrame (posts_data ?st) ?raw), ?st)"
      using st'(1) False f(1) by (simp add: get_reddit_posts_for_date_def)
    moreover have "stored_identities d \<subseteq> stored_identities (disk ?st)"
      using st'(5) f(2) by simp
    ultimately show ?thesis using st'(2,3)
      by (intro exI [of _ ?st]) simp
  qed
qed

lemma collect_loop_append:
  assumes "0 < b" "disk st \<noteq> Some Unparseable" "\<forall>x\<in>set pre. s \<le> ld (created_utc x)"
  shows "collect_loop ld s e b (map Yield pre @ rest) st
           = collect_loop ld s e b rest (snd (collect_loop ld s e b (map Yield pre) st))"
  using assms(2,3)
proof (induction pre arbitrary: st)
  case Nil
  then show ?case by simp
next
  case (Cons x pre)
  let ?d = "ld (created_utc x)"
  let ?raw = "[''Title'', ''Text'', ''Date'']"
  note b = \<open>0 < b\<close>
  then have bn: "b \<noteq> 0" by simp
  from Cons.prems have sx: "s \<le> ?d" and pre: "\<forall>x\<in>set pre. s \<le> ld (created_utc x)" by simp_all
  consider (skip) "e < ?d"
    | (keep) "?d \<le> e" "int (Suc (length (posts_data st))) mod b \<noteq> 0"
    | (flush) "?d \<le> e" "int (Suc (length (posts_data st))) mod b = 0"
    by linarith
  then show ?case
  proof cases
    case skip
    let ?st = "st\<lparr>pulled := Suc (pulled st), slept := slept st + 1\<rparr>"
    have "disk ?st \<noteq> Some Unparseable" using Cons.prems(1) by simp
    from Cons.IH [OF this pre] show ?thesis
      by (simp only: list.map append_Cons step_skip [where ld=ld and x=x and s=s and e=e, OF sx skip])
  next
    case keep
    let ?st = "st\<lparr>pulled := Suc (pulled st),
             posts_data := posts_data st @ [post_row x ?d],
             slept := slept st + 1\<rparr>"
    have "disk ?st \<noteq> Some Unparseable" using Cons.prems(1) by simp
    from Cons.IH [OF this pre] show ?thesis
      by (simp only: list.map append_Cons step_keep [where ld=ld and x=x and s=s and e=e, OF sx keep(1) bn keep(2)])
  next
    case flush
    let ?pd = "posts_data st @ [post_row x ?d]"
    from save_batch [OF Cons.prems(1), of ?pd]
    obtain f where f: "save_posts_to_csv (DataFrame ?pd ?raw) (disk st) = Inr (Some (Csv f))"
      by (elim exE conjE)
    let ?st = "st\<lparr>pulled := Suc (pulled st), posts_data := ?pd,
             disk := Some (Csv f), slept := slept st + 2 + 1\<rparr>"
    have "disk ?st \<noteq> Some Unparseable" by simp
    from Cons.IH [OF this pre] show ?thesis
      by (simp only: list.map append_Cons step_flush [where ld=ld and x=x and s=s and e=e, OF sx flush(1) bn flush(2) f])
  qed
qed

lemma filter_takeWhile_skip:
  assumes "Q x" "\<not> P x"
  shows "filter P (takeWhile Q (xs @ x # ys)) = filter P (takeWhile Q (xs @ ys))"
proof (cases "\<forall>y\<in>set xs. Q y")
  case True
  then show ?thesis using assms by (simp add: takeWhile_append2)
next
  case False
  then obtain y where "y \<in> set xs" "\<not> Q y" by blast
  then show ?thesis by (simp add: takeWhile_append1)
qed

text \<open>
  Claim C3, as the code has it. When the feed delivers the submissions \<open>pre\<close>, all dated
  \<open>start_date\<close> or later, and then a submission \<open>x\<close> dated before \<open>start_date\<close>, the
  collector returns the posts of \<open>pre\<close> dated \<open>end_date\<close> or earlier and nothing at or after
  \<open>x\<close>. It takes \<open>x\<close> from the feed, since the date of \<open>x\<close> is what ends the loop, and takes
  nothing after it. For the feed dated 10, 9, 8, 7 with \<open>start_date = 8\<close> and
  \<open>end_date = 9\<close> it returns the posts dated 9 and 8 after taking all four submissions.
\<close>

theorem collect_stops_at_first_older:
  assumes "0 < b" "file \<noteq> Some Unparseable"
    and "\<forall>y\<in>set pre. s \<le> ld (created_utc y)" "ld (created_utc x) < s"
  shows "\<exists>st. get_reddit_posts_for_date ld (map Yield (pre @ x # post)) s e b file
               = (Inr (DataFrame (map (\<lambda>y. post_row y (ld (created_utc y)))
                                      (filter (\<lambda>y. ld (created_utc y) \<le> e) pre))
                                 [''Title'', ''Text'', ''Date'']), st)
             \<and> pulled st = Suc (length pre)"
proof -
  have tw: "takeWhile (\<lambda>y. s \<le> ld (created_utc y)) (pre @ x # post) = pre"
    using assms(3,4) by (simp add: takeWhile_tail)
  from get_reddit_posts_for_date_yields [OF assms(1,2), of ld "pre @ x # post" s e]
  obtain st where "get_reddit_posts_for_date ld (map Yield (pre @ x # post)) s e b file
               = (Inr (DataFrame (posts_data st) [''Title'', ''Text'', ''Date'']), st)"
      "posts_data st = map (\<lambda>x. post_row x (ld (created_utc x)))
            (filter (\<lambda>x. ld (created_utc x) \<le> e) (takeWhile (\<lambda>x. s \<le> ld (created_utc x)) (pre @ x # post)))"
      "pulled st = min (length (pre @ x # post)) (Suc (length (takeWhile (\<lambda>x. s \<le> ld (created_utc x)) (pre @ x # post))))"
    by (elim exE conjE)
  then show ?thesis unfolding tw by (intro exI [of _ st]) simp
qed

theorem collect_stops_at_first_older_witness:
  "\<exists>st. get_reddit_posts_for_date floor
          [Yield \<lparr>title = ''a'', selftext = ''w'', created_utc = 10\<rparr>,
           Yield \<lparr>title = ''b'', selftext = ''x'', created_utc = 9\<rparr>,
           Yield \<lparr>title = ''c'', selftext = ''y'', created_utc = 8\<rparr>,
           Yield \<lparr>title = ''d'', selftext = ''z'', created_utc = 7\<rparr>] 8 9 100 None
        = (Inr (DataFrame [[Str ''b'', Str ''x'', Day 9], [Str ''c'', Str ''y'', Day 8]]
                          [''Title'', ''Text'', ''Date'']), st)
      \<and> pulled st = 4"
proof -
  let ?pre = "[\<lparr>title = ''a'', selftext = ''w'', created_utc = 10\<rparr>,
           \<lparr>title = ''b'', selftext = ''x'', created_utc = 9\<rparr>,
           \<lparr>title = ''c'', selftext = ''y'', created_utc = 8\<rparr>]"
  let ?x = "\<lparr>title = ''d'', selftext = ''z'', created_utc = 7\<rparr>"
  have h: "(0::int) < 100" "(None :: file_content option) \<noteq> Some Unparseable"
    "\<forall>y\<in>set ?pre. (8::int) \<le> floor (created_utc y)" "floor (created_utc ?x) < (8::int)"
    by simp_all
  from collect_stops_at_first_older [OF h, of "[]" 9]
  show ?thesis by (simp add: post_row_def eval_nat_numeral)
qed

text \<open>
  The example as the specification words it does not hold: on the feed dated 10, 9, 8, 7
  with \<open>start_date = 8\<close> the submission dated 7 is taken from the feed and its date is
  examined (four submissions are pulled), and with \<open>end_date = 10\<close> the post dated 10 is
  returned as well.
\<close>

theorem early_stop_example_counterexample:
  "pulled (snd (get_reddit_posts_for_date floor
          [Yield \<lparr>title = ''a'', selftext = ''w'', created_utc = 10\<rparr>,
           Yield \<lparr>title = ''b'', selftext = ''x'', created_utc = 9\<rparr>,
           Yield \<lparr>title = ''c'', selftext = ''y'', created_utc = 8\<rparr>,
           Yield \<lparr>title = ''d'', selftext = ''z'', created_utc = 7\<rparr>] 8 9 100 None)) = 4
   \<and> fst (get_reddit_posts_for_date floor
          [Yield \<lparr>title = ''a'', selftext = ''w'', created_utc = 10\<rparr>,
           Yield \<lparr>title = ''b'', selftext = ''x'', created_utc = 9\<rparr>,
           Yield \<lparr>title = ''c'', selftext = ''y'', created_utc = 8\<rparr>,
           Yield \<lparr>title = ''d'', selftext = ''z'', created_utc = 7\<rparr>] 8 10 100 None)
     = Inr (DataFrame [[Str ''a'', Str ''w'', Day 10], [Str ''b'', Str ''x'', Day 9],
                       [Str ''c'', Str ''y'', Day 8]] [''Title'', ''Text'', ''Date''])"
  by (simp add: get_reddit_posts_for_date_def Let_def post_row_def save_posts_to_csv_def
        to_csv_def DataFrame_def)


lemma date_of_post_row:
  "cell_of [''Title'', ''Text'', ''Date''] (post_row x dt) ''Date'' = Day dt"
  by (simp add: cell_of_def post_row_def)

text \<open>
  Claim C4. The frame returned holds exactly the posts dated between \<open>start_date\<close> and
  \<open>end_date\<close> among the submissions before the first one older than \<open>start_date\<close>; with
  \<open>start_date = end_date\<close> every returned post has that date; and a submission newer than
  \<open>end_date\<close> is passed over without ending the loop: the result is the one of the feed
  without that submission.
\<close>

theorem collect_window_filter:
  assumes "0 < b" "d \<noteq> Some Unparseable"
  shows "\<exists>df. fst (get_reddit_posts_for_date ld (map Yield subs) s e b d) = Inr df
      \<and> columns df = [''Title'', ''Text'', ''Date'']
      \<and> rows df = map (\<lambda>x. post_row x (ld (created_utc x)))
            (filter (\<lambda>x. ld (created_utc x) \<le> e) (takeWhile (\<lambda>x. s \<le> ld (created_utc x)) subs))
      \<and> (\<forall>r\<in>set (rows df). \<exists>x\<in>set subs.
             r = post_row x (ld (created_utc x)) \<and> s \<le> ld (created_utc x) \<and> ld (created_utc x) \<le> e)
      \<and> (s = e \<longrightarrow> (\<forall>r\<in>set (rows df). cell_of (columns df) r ''Date'' = Day e))
      \<and> (\<forall>a x c. subs = a @ x # c \<and> s \<le> e \<and> e < ld (created_utc x)
             \<longrightarrow> fst (get_reddit_posts_for_date ld (map Yield (a @ c)) s e b d) = Inr df)"
proof -
  let ?raw = "[''Title'', ''Text'', ''Date'']"
  let ?sel = "\<lambda>xs. filter (\<lambda>x. ld (created_utc x) \<le> e) (takeWhile (\<lambda>x. s \<le> ld (created_utc x)) xs)"
  let ?rows = "\<lambda>xs. map (\<lambda>x. post_row x (ld (created_utc x))) (?sel xs)"
  have run: "fst (get_reddit_posts_for_date ld (map Yield xs) s e b d) = Inr (DataFrame (?rows xs) ?raw)" for xs
  proof -
    from get_reddit_posts_for_date_yields [OF assms, of ld xs s e]
    obtain st where "get_reddit_posts_for_date ld (map Yield xs) s e b d
               = (Inr (DataFrame (posts_data st) ?raw), st)" "posts_data st = ?rows xs"
      by (elim exE conjE)
    then show ?thesis by simp
  qed
  have mem: "\<exists>x\<in>set subs. r = post_row x (ld (created_utc x)) \<and> s \<le> ld (created_utc x) \<and> ld (created_utc x) \<le> e"
    if "r \<in> set (?rows subs)" for r
  proof -
    from that obtain x where x: "x \<in> set (?sel subs)" "r = post_row x (ld (created_utc x))"
      by (auto simp: image_iff)
    then have "x \<in> set (takeWhile (\<lambda>x. s \<le> ld (created_utc x)) subs)" "ld (created_utc x) \<le> e"
      by simp_all
    then have "x \<in> set subs" "s \<le> ld (created_utc x)" "ld (created_utc x) \<le> e"
      by (auto dest: set_takeWhileD)
    with x(2) show ?thesis by (intro bexI [of _ x]) simp_all
  qed
  have day: "cell_of ?raw r ''Date'' = Day e" if "s = e" "r \<in> set (?rows subs)" for r
  proof -
    from mem [OF that(2)] obtain x where "r = post_row x (ld (created_utc x))"
      "s \<le> ld (created_utc x)" "ld (created_utc x) \<le> e" by (elim bexE conjE)
    with that(1) show ?thesis by (simp add: date_of_post_row)
  qed
  have skip: "fst (get_reddit_posts_for_date ld (map Yield (a @ c)) s e b d) = Inr (DataFrame (?rows subs) ?raw)"
    if "subs = a @ x # c" "s \<le> e" "e < ld (created_utc x)" for a x c
  proof -
    have "?sel (a @ x # c) = ?sel (a @ c)"
      using that(2,3) by (intro filter_takeWhile_skip) simp_all
    then show ?thesis using that(1) run [of "a @ c"] by simp
  qed
  let ?df = "DataFrame (?rows subs) ?raw"
  have "fst (get_reddit_posts_for_date ld (map Yield subs) s e b d) = Inr ?df
      \<and> columns ?df = ?raw \<and> rows ?df = ?rows subs
      \<and> (\<forall>r\<in>set (rows ?df). \<exists>x\<in>set subs.
             r = post_row x (ld (created_utc x)) \<and> s \<le> ld (created_utc x) \<and> ld (created_utc x) \<le> e)
      \<and> (s = e \<longrightarrow> (\<forall>r\<in>set (rows ?df). cell_of (columns ?df) r ''Date'' = Day e))
      \<and> (\<forall>a x c. subs = a @ x # c \<and> s \<le> e \<and> e < ld (created_utc x)
             \<longrightarrow> fst (get_reddit_posts_for_date ld (map Yield (a @ c)) s e b d) = Inr ?df)"
  proof (intro conjI)
    show "fst (get_reddit_posts_for_date ld (map Yield subs) s e b d) = Inr ?df" by (rule run)
    show "columns ?df = ?raw" by (simp add: DataFrame_def)
    show "rows ?df = ?rows subs" by (simp add: DataFrame_def)
    show "\<forall>r\<in>set (rows ?df). \<exists>x\<in>set subs.
             r = post_row x (ld (created_utc x)) \<and> s \<le> ld (created_utc x) \<and> ld (created_utc x) \<le> e"
    proof (intro ballI)
      fix r assume "r \<in> set (rows ?df)"
      then have "r \<in> set (?rows subs)" by (simp add: DataFrame_def)
      then show "\<exists>x\<in>set subs.
             r = post_row x (ld (created_utc x)) \<and> s \<le> ld (created_utc x) \<and> ld (created_utc x) \<le> e"
        by (rule mem)
    qed
    show "s = e \<longrightarrow> (\<forall>r\<in>set (rows ?df). cell_of (columns ?df) r ''Date'' = Day e)"
    proof (intro impI ballI)
      fix r assume "s = e" "r \<in> set (rows ?df)"
      then have "s = e" "r \<in> set (?rows subs)" by (simp_all add: DataFrame_def)
      then have "cell_of ?raw r ''Date'' = Day e" by (rule day)
      then show "cell_of (columns ?df) r ''Date'' = Day e" by (simp add: DataFrame_def)
    qed
    show "\<forall>a x c. subs = a @ x # c \<and> s \<le> e \<and> e < ld (created_utc x)
             \<longrightarrow> fst (get_reddit_posts_for_date ld (map Yield (a @ c)) s e b d) = Inr ?df"
    proof (intro allI impI)
      fix a x c assume "subs = a @ x # c \<and> s \<le> e \<and> e < ld (created_utc x)"
      then have "subs = a @ x # c" "s \<le> e" "e < ld (created_utc x)" by simp_all
      then show "fst (get_reddit_posts_for_date ld (map Yield (a @ c)) s e b d) = Inr ?df"
        by (rule skip)
    qed
  qed
  then show ?thesis by (rule exI [of _ ?df])
qed


theorem collect_window_filter_witness:
  "\<exists>df. fst (get_reddit_posts_for_date floor
          [Yield \<lparr>title = ''a'', selftext = ''w'', created_utc = 11\<rparr>,
           Yield \<lparr>title = ''b'', selftext = ''x'', created_utc = 10\<rparr>,
           Yield \<lparr>title = ''c'', selftext = ''y'', created_utc = 9\<rparr>] 10 10 100 None) = Inr df
      \<and> rows df = [[Str ''b'', Str ''x'', Day 10]]
      \<and> (\<forall>r\<in>set (rows df). cell_of (columns df) r ''Date'' = Day 10)"
proof -
  let ?subs = "[\<lparr>title = ''a'', selftext = ''w'', created_utc = 11\<rparr>,
           \<lparr>title = ''b'', selftext = ''x'', created_utc = 10\<rparr>,
           \<lparr>title = ''c'', selftext = ''y'', created_utc = 9\<rparr>]"
  have h: "(0::int) < 100" "(None :: file_content option) \<noteq> Some Unparseable" by simp_all
  from collect_window_filter [OF h, of floor ?subs 10 10]
  obtain df where df: "fst (get_reddit_posts_for_date floor (map Yield ?subs) 10 10 100 None) = Inr df"
    "rows df = map (\<lambda>x. post_row x (floor (created_utc x)))
            (filter (\<lambda>x. floor (created_utc x) \<le> 10) (takeWhile (\<lambda>x. 10 \<le> floor (created_utc x)) ?subs))"
    "(10::int) = 10 \<longrightarrow> (\<forall>r\<in>set (rows df). cell_of (columns df) r ''Date'' = Day 10)"
    by (elim exE conjE)
  from df(2) have "rows df = [[Str ''b'', Str ''x'', Day 10]]" by (simp add: post_row_def)
  with df(1,3) show ?thesis by (intro exI [of _ df]) simp
qed

lemma load_parseable:
  "d \<noteq> Some Unparseable \<Longrightarrow> \<exists>stored. load_posts_from_csv d = Inr stored"
proof (cases d)
  case None
  then show ?thesis by (simp add: load_posts_from_csv_def)
next
  case (Some content)
  assume "d \<noteq> Some Unparseable"
  with Some obtain f where "content = Csv f" by (cases content) simp_all
  with Some show ?thesis by (simp add: load_posts_from_csv_def)
qed

text \<open>
  Claim C9. When the feed raises after the submissions \<open>pre\<close> (none of them older than
  \<open>start_date\<close>), the exception leaves \<^verbatim>\<open>get_reddit_posts_for_date\<close> and, in the pipeline,
  \<^verbatim>\<open>main\<close>; nothing after the failure is taken from the feed. The posts collected so far
  split into whole batches, whose identities are all in the file, and at most
  \<open>batch_size - 1\<close> posts collected since the last flush; what the file held before is still
  there; so at most \<open>batch_size - 1\<close> collected posts are missing from the file.
\<close>

theorem source_failure_keeps_flushed_batches:
  assumes "0 < b" "d \<noteq> Some Unparseable" "\<forall>x\<in>set pre. s \<le> ld (created_utc x)"
  shows "\<exists>st. get_reddit_posts_for_date ld (map Yield pre @ Raise # rest) s e b d = (Inl SourceError, st)
      \<and> pulled st = length pre
      \<and> posts_data st = map (\<lambda>x. post_row x (ld (created_utc x))) (filter (\<lambda>x. ld (created_utc x) \<le> e) pre)
      \<and> (\<exists>flushed pending. posts_data st = flushed @ pending
            \<and> int (length flushed) mod b = 0 \<and> int (length pending) \<le> b - 1
            \<and> set (map (identity [''Title'', ''Text'', ''Date'']) flushed) \<subseteq> stored_identities (disk st))
      \<and> stored_identities d \<subseteq> stored_identities (disk st)
      \<and> int (length (filter (\<lambda>r. identity [''Title'', ''Text'', ''Date''] r \<notin> stored_identities (disk st))
                             (posts_data st))) \<le> b - 1
      \<and> (s = today - 50 \<and> e = today \<and> b = 100
            \<longrightarrow> main score ld (map Yield pre @ Raise # rest) today d = (Inl SourceError, disk st))"
proof -
  let ?raw = "[''Title'', ''Text'', ''Date'']"
  let ?st0 = "\<lparr>posts_data = [], disk = d, pulled = 0, slept = 0\<rparr>"
  let ?src = "map Yield pre @ Raise # rest"
  have p: "disk ?st0 \<noteq> Some Unparseable" using assms(2) by simp
  have tw: "takeWhile (\<lambda>x. s \<le> ld (created_utc x)) pre = pre"
    using assms(3) by (simp add: takeWhile_eq_all_conv)
  from collect_loop_yields [OF assms(1) p flush_invariant_start [OF assms(1)], of ld s e pre]
  obtain st where st: "collect_loop ld s e b (map Yield pre) ?st0 = (None, st)"
      "posts_data st = posts_data ?st0 @ map (\<lambda>x. post_row x (ld (created_utc x)))
            (filter (\<lambda>x. ld (created_utc x) \<le> e) (takeWhile (\<lambda>x. s \<le> ld (created_utc x)) pre))"
      "pulled st = pulled ?st0 + min (length pre) (Suc (length (takeWhile (\<lambda>x. s \<le> ld (created_utc x)) pre)))"
      "stored_identities (disk ?st0) \<subseteq> stored_identities (disk st)"
      "flush_invariant b st"
    by (elim exE conjE)
  have "collect_loop ld s e b ?src ?st0 = collect_loop ld s e b (Raise # rest) st"
    using collect_loop_append [OF assms(1) p assms(3), where e=e and rest="Raise # rest"] st(1) by simp
  then have loop: "collect_loop ld s e b ?src ?st0 = (Some SourceError, st)" by simp
  then have get: "get_reddit_posts_for_date ld ?src s e b d = (Inl SourceError, st)"
    by (simp add: get_reddit_posts_for_date_def)
  have pulled: "pulled st = length pre" using st(3) tw by simp
  have pd: "posts_data st = map (\<lambda>x. post_row x (ld (created_utc x))) (filter (\<lambda>x. ld (created_utc x) \<le> e) pre)"
    using st(2) tw by simp
  from st(5) obtain flushed pending where fp: "posts_data st = flushed @ pending"
    "int (length flushed) mod b = 0" "int (length pending) < b"
    "set (map (identity ?raw) flushed) \<subseteq> stored_identities (disk st)"
    unfolding flush_invariant_def by (elim exE conjE)
  have inv: "\<exists>flushed pending. posts_data st = flushed @ pending
            \<and> int (length flushed) mod b = 0 \<and> int (length pending) \<le> b - 1
            \<and> set (map (identity ?raw) flushed) \<subseteq> stored_identities (disk st)"
  proof (intro exI conjI)
    show "posts_data st = flushed @ pending" by (rule fp(1))
    show "int (length flushed) mod b = 0" by (rule fp(2))
    show "int (length pending) \<le> b - 1" using fp(3) by simp
    show "set (map (identity ?raw) flushed) \<subseteq> stored_identities (disk st)" by (rule fp(4))
  qed
  have "filter (\<lambda>r. identity ?raw r \<notin> stored_identities (disk st)) flushed = []"
    using fp(4) by (simp add: filter_empty_conv image_subset_iff)
  then have "length (filter (\<lambda>r. identity ?raw r \<notin> stored_identities (disk st)) (posts_data st))
               \<le> length pending"
    using fp(1) by simp
  then have lost: "int (length (filter (\<lambda>r. identity ?raw r \<notin> stored_identities (disk st)) (posts_data st))) \<le> b - 1"
    using fp(3) by simp
  have main: "main score ld ?src today d = (Inl SourceError, disk st)"
    if "s = today - 50 \<and> e = today \<and> b = 100"
  proof -
    from load_parseable [OF assms(2)] obtain stored where "load_posts_from_csv d = Inr stored" ..
    moreover have "get_reddit_posts_for_date ld ?src (today - 50) today 100 d = (Inl SourceError, st)"
      using get that by simp
    ultimately show ?thesis by (simp add: main_def)
  qed
  have "get_reddit_posts_for_date ld ?src s e b d = (Inl SourceError, st)
      \<and> pulled st = length pre
      \<and> posts_data st = map (\<lambda>x. post_row x (ld (created_utc x))) (filter (\<lambda>x. ld (created_utc x) \<le> e) pre)
      \<and> (\<exists>flushed pending. posts_data st = flushed @ pending
            \<and> int (length flushed) mod b = 0 \<and> int (length pending) \<le> b - 1
            \<and> set (map (identity ?raw) flushed) \<subseteq> stored_identities (disk st))
      \<and> stored_identities d \<subseteq> stored_identities (disk st)
      \<and> int (length (filter (\<lambda>r. identity ?raw r \<notin> stored_identities (disk st)) (posts_data st))) \<le> b - 1
      \<and> (s = today - 50 \<and> e = today \<and> b = 100
            \<longrightarrow> main score ld ?src today d = (Inl SourceError, disk st))"
  proof (intro conjI impI)
    show "get_reddit_posts_for_date ld ?src s e b d = (Inl SourceError, st)" by (rule get)
    show "pulled st = length pre" by (rule pulled)
    show "posts_data st = map (\<lambda>x. post_row x (ld (created_utc x))) (filter (\<lambda>x. ld (created_utc x) \<le> e) pre)"
      by (rule pd)
    show "\<exists>flushed pending. posts_data st = flushed @ pending
            \<and> int (length flushed) mod b = 0 \<and> int (length pending) \<le> b - 1
            \<and> set (map (identity ?raw) flushed) \<subseteq> stored_identities (disk st)" by (rule inv)
    show "stored_identities d \<subseteq> stored_identities (disk st)" using st(4) by simp
    show "int (length (filter (\<lambda>r. identity ?raw r \<notin> stored_identities (disk st)) (posts_data st))) \<le> b - 1"
      by (rule lost)
    show "main score ld ?src today d = (Inl SourceError, disk st)"
      if "s = today - 50 \<and> e = today \<and> b = 100" using that by (rule main)
  qed
  then show ?thesis by (rule exI [of _ st])
qed


theorem source_failure_keeps_flushed_batches_witness:
  "(\<exists>st. get_reddit_posts_for_date floor
           [Yield \<lparr>title = ''a'', selftext = ''w'', created_utc = 10\<rparr>,
            Yield \<lparr>title = ''b'', selftext = ''x'', created_utc = 9\<rparr>,
            Yield \<lparr>title = ''c'', selftext = ''y'', created_utc = 8\<rparr>,
            Raise,
            Yield \<lparr>title = ''d'', selftext = ''z'', created_utc = 8\<rparr>] 8 10 2 None
          = (Inl SourceError, st)
        \<and> pulled st = 3
        \<and> int (length (filter (\<lambda>r. identity [''Title'', ''Text'', ''Date''] r \<notin> stored_identities (disk st))
                               (posts_data st))) \<le> 1)
   \<and> fst (main (\<lambda>t. 0) floor
             [Yield \<lparr>title = ''a'', selftext = ''w'', created_utc = 10\<rparr>, Raise] 10 None)
       = Inl SourceError"
proof -
  let ?pre = "[\<lparr>title = ''a'', selftext = ''w'', created_utc = 10\<rparr>,
            \<lparr>title = ''b'', selftext = ''x'', created_utc = 9\<rparr>,
            \<lparr>title = ''c'', selftext = ''y'', created_utc = 8\<rparr>]"
  let ?rest = "[Yield \<lparr>title = ''d'', selftext = ''z'', created_utc = 8\<rparr>]"
  let ?pre2 = "[\<lparr>title = ''a'', selftext = ''w'', created_utc = 10\<rparr>]"
  have h: "(0::int) < 2" "(None :: file_content option) \<noteq> Some Unparseable"
    "\<forall>x\<in>set ?pre. (8::int) \<le> floor (created_utc x)"
    by simp_all
  from source_failure_keeps_flushed_batches [OF h, where rest="?rest" and e=10 and today=0 and score="\<lambda>t. 0"]
  obtain st where st: "get_reddit_posts_for_date floor (map Yield ?pre @ Raise # ?rest) 8 10 2 None
          = (Inl SourceError, st)" "pulled st = length ?pre"
     "int (length (filter (\<lambda>r. identity [''Title'', ''Text'', ''Date''] r \<notin> stored_identities (disk st))
                               (posts_data st))) \<le> 2 - 1"
    by (elim exE conjE)
  have 1: "\<exists>st. get_reddit_posts_for_date floor (map Yield ?pre @ Raise # ?rest) 8 10 2 None
          = (Inl SourceError, st)
        \<and> pulled st = 3
        \<and> int (length (filter (\<lambda>r. identity [''Title'', ''Text'', ''Date''] r \<notin> stored_identities (disk st))
                               (posts_data st))) \<le> 1"
    using st by (intro exI [of _ st]) simp
  have h2: "(0::int) < 100" "(None :: file_content option) \<noteq> Some Unparseable"
    "\<forall>x\<in>set ?pre2. (10::int) - 50 \<le> floor (created_utc x)"
    by simp_all
  from source_failure_keeps_flushed_batches [OF h2, where rest="[]" and e=10 and today=10 and score="\<lambda>t. 0"]
  have 2: "fst (main (\<lambda>t. 0) floor (map Yield ?pre2 @ Raise # []) 10 None) = Inl SourceError"
    by (elim exE conjE) simp
  from 1 2 show ?thesis by simp
qed

section \<open>Loading the store\<close>

text \<open>
  Claim C8, as the code has it. \<^verbatim>\<open>load_posts_from_csv\<close> returns the contents of the file when
  the file is there and can be parsed, and the empty store with the columns Title, Text and
  Date when there is no file. A file that cannot be parsed is not taken for an empty store:
  the exception of \<^verbatim>\<open>pd.read_csv\<close> leaves the function, and the run ends with it before
  anything is collected or written.
\<close>

theorem load_returns_file_or_empty:
  "load_posts_from_csv (Some (Csv df)) = Inr df
   \<and> load_posts_from_csv None = Inr (DataFrame [] [''Title'', ''Text'', ''Date''])
   \<and> rows (DataFrame [] [''Title'', ''Text'', ''Date'']) = []
   \<and> load_posts_from_csv (Some Unparseable) = Inl ParserError
   \<and> main score ld src today (Some Unparseable) = (Inl ParserError, Some Unparseable)"
  by (simp add: load_posts_from_csv_def DataFrame_def main_def)

text \<open>On a file that cannot be parsed, loading raises; it does not return the empty store.\<close>

theorem load_malformed_counterexample:
  "load_posts_from_csv (Some Unparseable) = Inl ParserError
   \<and> load_posts_from_csv (Some Unparseable) \<noteq> Inr (DataFrame [] [''Title'', ''Text'', ''Date''])"
  by (simp add: load_posts_from_csv_def)

section \<open>Aggregation\<close>

lemma apply_series_scores:
  "apply_series (analyze_sentiment score) (map (\<lambda>x. Str (f x)) xs)
     = Inr (map (\<lambda>x. Num (score (f x))) xs)"
  by (induction xs) simp_all

lemma nums_Num: "nums (map (\<lambda>x. Num (f x)) xs) = map f xs"
  by (induction xs) simp_all

lemma mean_Num:
  "xs \<noteq> [] \<Longrightarrow> mean (map (\<lambda>x. Num (f x)) xs) = Num (sum_list (map f xs) / real (length xs))"
  by (simp add: mean_def nums_Num)

lemma remdups_map_Day: "remdups (map Day ds) = map Day (remdups ds)"
  by (induction ds) auto

lemma insort_key_Day: "insort_key day_ord (Day d) (map Day ds) = map Day (insort d ds)"
  by (induction ds) simp_all

lemma sort_key_Day: "sort_key day_ord (map Day ds) = map Day (sort ds)"
  by (induction ds) (simp_all add: insort_key_Day)

lemma group_keys:
  "sort_key day_ord (remdups (filter (\<lambda>x. x \<noteq> NaN) (map (\<lambda>x. Day (dt x)) xs)))
     = map Day (sorted_list_of_set (dt ` set xs))"
proof -
  have "filter (\<lambda>x. x \<noteq> NaN) (map (\<lambda>x. Day (dt x)) xs) = map Day (map dt xs)"
    by (induction xs) simp_all
  then have "sort_key day_ord (remdups (filter (\<lambda>x. x \<noteq> NaN) (map (\<lambda>x. Day (dt x)) xs)))
      = map Day (sort (remdups (map dt xs)))"
    by (simp only: remdups_map_Day sort_key_Day)
  also have "sort (remdups (map dt xs)) = sorted_list_of_set (set (map dt xs))"
    by (simp only: sorted_list_of_set_sort_remdups)
  finally show ?thesis by simp
qed

lemma scored_frame:
  "snd (analyze_daily_sentiment score (DataFrame (map (\<lambda>x. post_row x (dt x)) xs) [''Title'', ''Text'', ''Date'']))
     = \<lparr>columns = [''Title'', ''Text'', ''Date'', ''Sentiment_Title'', ''Sentiment_Text'', ''Overall_Sentiment''],
        rows = map (\<lambda>x. [Str (title x), Str (selftext x), Day (dt x), Num (score (title x)),
                           Num (score (selftext x)), Num ((score (title x) + score (selftext x)) / 2)]) xs\<rparr>
   \<and> fst (analyze_daily_sentiment score (DataFrame (map (\<lambda>x. post_row x (dt x)) xs) [''Title'', ''Text'', ''Date'']))
     = groupby_mean
         \<lparr>columns = [''Title'', ''Text'', ''Date'', ''Sentiment_Title'', ''Sentiment_Text'', ''Overall_Sentiment''],
          rows = map (\<lambda>x. [Str (title x), Str (selftext x), Day (dt x), Num (score (title x)),
                           Num (score (selftext x)), Num ((score (title x) + score (selftext x)) / 2)]) xs\<rparr>
         ''Date'' ''Overall_Sentiment''"
  by (simp add: analyze_daily_sentiment_def DataFrame_def getitem_def setitem_def post_row_def
        cell_of_def comp_def apply_series_scores map2_map_map Let_def)


text \<open>
  Claim C5. For a store of posts with titles, bodies and dates, the daily series has one row
  per date on which there is a post, in ascending order of date, holding the arithmetic
  mean over the posts of that date of \<open>(score title + score body) / 2\<close>; a date without
  posts has no row.
\<close>

theorem daily_average_is_mean_per_date:
  "fst (analyze_daily_sentiment score (DataFrame (map (\<lambda>x. post_row x (dt x)) xs) [''Title'', ''Text'', ''Date'']))
     = Inr \<lparr>columns = [''Date'', ''Overall_Sentiment''],
            rows = map (\<lambda>d. [Day d,
                             Num (sum_list (map (\<lambda>x. (score (title x) + score (selftext x)) / 2)
                                                (filter (\<lambda>x. dt x = d) xs))
                                  / real (length (filter (\<lambda>x. dt x = d) xs)))])
                       (sorted_list_of_set (dt ` set xs))\<rparr>"
proof -
  let ?cols = "[''Title'', ''Text'', ''Date'', ''Sentiment_Title'', ''Sentiment_Text'', ''Overall_Sentiment'']"
  let ?overall = "\<lambda>x. (score (title x) + score (selftext x)) / 2"
  let ?row = "\<lambda>x. [Str (title x), Str (selftext x), Day (dt x), Num (score (title x)),
                           Num (score (selftext x)), Num (?overall x)]"
  have date: "cell_of ?cols (?row x) ''Date'' = Day (dt x)" for x
    by (simp add: cell_of_def)
  have ov: "cell_of ?cols (?row x) ''Overall_Sentiment'' = Num (?overall x)" for x
    by (simp add: cell_of_def)
  have keys: "sort_key day_ord (remdups (filter (\<lambda>c. c \<noteq> NaN) (map (\<lambda>r. cell_of ?cols r ''Date'') (map ?row xs))))
                = map Day (sorted_list_of_set (dt ` set xs))"
    by (simp only: map_map comp_def date group_keys)
  have grp: "mean (map (\<lambda>r. cell_of ?cols r ''Overall_Sentiment'')
                  (filter (\<lambda>r. cell_of ?cols r ''Date'' = Day d) (map ?row xs)))
             = Num (sum_list (map ?overall (filter (\<lambda>x. dt x = d) xs))
                    / real (length (filter (\<lambda>x. dt x = d) xs)))"
    if "d \<in> dt ` set xs" for d
  proof -
    have ne: "filter (\<lambda>x. dt x = d) xs \<noteq> []"
      using that by (auto simp: filter_empty_conv)
    have "filter (\<lambda>r. cell_of ?cols r ''Date'' = Day d) (map ?row xs)
            = map ?row (filter (\<lambda>x. dt x = d) xs)"
      by (simp only: filter_map comp_def date cell.inject)
    then have "map (\<lambda>r. cell_of ?cols r ''Overall_Sentiment'')
                  (filter (\<lambda>r. cell_of ?cols r ''Date'' = Day d) (map ?row xs))
               = map (\<lambda>x. Num (?overall x)) (filter (\<lambda>x. dt x = d) xs)"
      by (simp only: map_map comp_def ov)
    then show ?thesis using mean_Num [OF ne, of ?overall] by simp
  qed
  have "groupby_mean \<lparr>columns = ?cols, rows = map ?row xs\<rparr> ''Date'' ''Overall_Sentiment''
          = Inr \<lparr>columns = [''Date'', ''Overall_Sentiment''],
                 rows = map (\<lambda>k. [k, mean (map (\<lambda>r. cell_of ?cols r ''Overall_Sentiment'')
                                             (filter (\<lambda>r. cell_of ?cols r ''Date'' = k) (map ?row xs)))])
                            (map Day (sorted_list_of_set (dt ` set xs)))\<rparr>"
    unfolding groupby_mean_def Let_def dataframe.simps keys by simp
  also have "map (\<lambda>k. [k, mean (map (\<lambda>r. cell_of ?cols r ''Overall_Sentiment'')
                                             (filter (\<lambda>r. cell_of ?cols r ''Date'' = k) (map ?row xs)))])
                            (map Day (sorted_list_of_set (dt ` set xs)))
       = map (\<lambda>d. [Day d, Num (sum_list (map ?overall (filter (\<lambda>x. dt x = d) xs))
                                  / real (length (filter (\<lambda>x. dt x = d) xs)))])
             (sorted_list_of_set (dt ` set xs))"
    unfolding map_map comp_def
    by (rule map_cong [OF refl]) (simp add: grp)
  finally show ?thesis by (simp only: scored_frame)
qed

text \<open>
  The example of the claim: two posts of one date whose overall sentiments are 1 and -1
  average to 0.
\<close>

theorem daily_average_example:
  "fst (analyze_daily_sentiment (\<lambda>t. if t = ''a'' \<or> t = ''b'' then 1 else - 1)
         (DataFrame [[Str ''a'', Str ''b'', Day 1], [Str ''c'', Str ''d'', Day 1]]
                    [''Title'', ''Text'', ''Date'']))
   = Inr \<lparr>columns = [''Date'', ''Overall_Sentiment''], rows = [[Day 1, Num 0]]\<rparr>"
proof -
  let ?xs = "[\<lparr>title = ''a'', selftext = ''b'', created_utc = 0\<rparr>,
              \<lparr>title = ''c'', selftext = ''d'', created_utc = 0\<rparr>]"
  from daily_average_is_mean_per_date [of "\<lambda>t. if t = ''a'' \<or> t = ''b'' then 1 else - 1" "\<lambda>x. 1" ?xs]
  show ?thesis by (simp add: post_row_def)
qed





section \<open>The pipeline run\<close>

lemma analyze_empty_frame:
  assumes "df_empty df" "fst (analyze_daily_sentiment score df) = Inr series"
  shows "rows series = []"
proof (cases "columns df = []")
  case True
  then have "fst (analyze_daily_sentiment score df) = Inl KeyError"
    by (simp add: analyze_daily_sentiment_def getitem_def)
  with assms(2) show ?thesis by simp
next
  case False
  with assms(1) have r: "rows df = []" by (simp add: df_empty_def)
  have "fst (analyze_daily_sentiment score df)
          = (if ''Title'' \<in> set (columns df) \<and> ''Text'' \<in> set (columns df) \<and> ''Date'' \<in> set (columns df)
             then Inr \<lparr>columns = [''Date'', ''Overall_Sentiment''], rows = []\<rparr>
             else Inl KeyError)"
    using r
    by (simp add: analyze_daily_sentiment_def getitem_def setitem_def groupby_mean_def Let_def)
  with assms(2) show ?thesis by (auto split: if_splits)
qed


text \<open>
  Claim C6, as the code has it. When a run emits a series and the collector returned at
  least one post, the series is the daily sentiment of the merge of the loaded store with the
  collected posts. When the collector returned nothing, \<^verbatim>\<open>main\<close> skips the merge
  (\<^verbatim>\<open>if not posts_df.empty\<close>) and the series is the daily sentiment of the empty collected
  frame: it has no rows, whatever the loaded store holds.
\<close>

theorem series_from_merged_unless_nothing_collected:
  assumes "load_posts_from_csv d = Inr stored"
    and "fst (get_reddit_posts_for_date ld src (today - 50) today 100 d) = Inr collected"
    and "fst (main score ld src today d) = Inr series"
  shows "(\<not> df_empty collected \<longrightarrow>
            (\<exists>merged. concat_drop_duplicates stored collected = Inr merged
               \<and> fst (analyze_daily_sentiment score merged) = Inr series))
       \<and> (df_empty collected \<longrightarrow>
            fst (analyze_daily_sentiment score collected) = Inr series \<and> rows series = [])"
proof -
  obtain res st where g: "get_reddit_posts_for_date ld src (today - 50) today 100 d = (res, st)"
    by (cases "get_reddit_posts_for_date ld src (today - 50) today 100 d")
  with assms(2) have res: "res = Inr collected" by simp
  show ?thesis
  proof (cases "df_empty collected")
    case True
    obtain r2 df2 where a: "analyze_daily_sentiment score collected = (r2, df2)"
      by (cases "analyze_daily_sentiment score collected")
    have "r2 = Inr series"
      using assms(1,3) g res True a
      by (cases r2) (simp_all add: main_def split: sum.splits)
    then have "fst (analyze_daily_sentiment score collected) = Inr series" using a by simp
    then show ?thesis using True analyze_empty_frame [OF True] by simp
  next
    case False
    show ?thesis
    proof (cases "concat_drop_duplicates stored collected")
      case (Inl e)
      then show ?thesis using assms(1,3) g res False by (simp add: main_def)
    next
      case (Inr merged)
      obtain r2 df2 where a: "analyze_daily_sentiment score merged = (r2, df2)"
        by (cases "analyze_daily_sentiment score merged")
      have "r2 = Inr series"
        using assms(1,3) g res False Inr a
        by (cases r2) (simp_all add: main_def split: sum.splits)
      then show ?thesis using False Inr a by simp
    qed
  qed
qed

lemmas eval_defs =
  main_def load_posts_from_csv_def get_reddit_posts_for_date_def Let_def
  post_row_def save_posts_to_csv_def to_csv_def DataFrame_def df_empty_def
  concat_drop_duplicates_def pd_concat_def reindex_def drop_duplicates_def
  analyze_daily_sentiment_def getitem_def setitem_def groupby_mean_def cell_of_def mean_def

theorem series_from_merged_unless_nothing_collected_witness:
  "(\<exists>merged. concat_drop_duplicates
               (DataFrame [[Str ''a'', Str ''b'', Day 3]] [''Title'', ''Text'', ''Date''])
               (DataFrame [[Str ''c'', Str ''d'', Day 10]] [''Title'', ''Text'', ''Date'']) = Inr merged
      \<and> fst (analyze_daily_sentiment (\<lambda>t. 1) merged)
          = Inr \<lparr>columns = [''Date'', ''Overall_Sentiment''], rows = [[Day 3, Num 1], [Day 10, Num 1]]\<rparr>)
   \<and> fst (analyze_daily_sentiment (\<lambda>t. 1) (DataFrame [] [''Title'', ''Text'', ''Date'']))
       = Inr \<lparr>columns = [''Date'', ''Overall_Sentiment''], rows = []\<rparr>"
proof -
  let ?S = "DataFrame [[Str ''a'', Str ''b'', Day 3]] [''Title'', ''Text'', ''Date'']"
  let ?C = "DataFrame [[Str ''c'', Str ''d'', Day 10]] [''Title'', ''Text'', ''Date'']"
  let ?E = "DataFrame [] [''Title'', ''Text'', ''Date'']"
  let ?src = "[Yield \<lparr>title = ''c'', selftext = ''d'', created_utc = 10\<rparr>]"
  let ?A = "\<lparr>columns = [''Date'', ''Overall_Sentiment''], rows = [[Day 3, Num 1], [Day 10, Num 1]]\<rparr>"
  let ?B = "\<lparr>columns = [''Date'', ''Overall_Sentiment''], rows = []\<rparr>"
  have l: "load_posts_from_csv (Some (Csv ?S)) = Inr ?S"
    by (simp add: load_posts_from_csv_def)
  have c: "fst (get_reddit_posts_for_date floor ?src (10 - 50) 10 100 (Some (Csv ?S))) = Inr ?C"
    by (simp add: eval_defs)
  have m: "fst (main (\<lambda>t. 1) floor ?src 10 (Some (Csv ?S))) = Inr ?A"
    by (simp add: eval_defs)
  have ne: "\<not> df_empty ?C" by (simp add: df_empty_def DataFrame_def)
  have c0: "fst (get_reddit_posts_for_date floor [] (10 - 50) 10 100 (Some (Csv ?S))) = Inr ?E"
    by (simp add: eval_defs)
  have m0: "fst (main (\<lambda>t. 1) floor [] 10 (Some (Csv ?S))) = Inr ?B"
    by (simp add: eval_defs)
  have e: "df_empty ?E" by (simp add: df_empty_def DataFrame_def)
  from series_from_merged_unless_nothing_collected [OF l c m] ne
  have 1: "\<exists>merged. concat_drop_duplicates ?S ?C = Inr merged
      \<and> fst (analyze_daily_sentiment (\<lambda>t. 1) merged) = Inr ?A"
    by (simp only: simp_thms)
  from series_from_merged_unless_nothing_collected [OF l c0 m0] e
  have 2: "fst (analyze_daily_sentiment (\<lambda>t. 1) ?E) = Inr ?B"
    by (simp only: simp_thms)
  from 1 2 show ?thesis by (rule conjI)
qed

text \<open>
  With one post in the file and an empty feed, the merged store is the loaded store, whose
  daily sentiment has a row for the post's date, but the series \<^verbatim>\<open>main\<close> emits has none.
\<close>

theorem empty_collection_series_counterexample:
  "load_posts_from_csv (Some (Csv (DataFrame [[Str ''a'', Str ''b'', Day 3]] [''Title'', ''Text'', ''Date''])))
     = Inr (DataFrame [[Str ''a'', Str ''b'', Day 3]] [''Title'', ''Text'', ''Date''])
   \<and> fst (get_reddit_posts_for_date floor [] (10 - 50) 10 100
            (Some (Csv (DataFrame [[Str ''a'', Str ''b'', Day 3]] [''Title'', ''Text'', ''Date'']))))
     = Inr (DataFrame [] [''Title'', ''Text'', ''Date''])
   \<and> concat_drop_duplicates (DataFrame [[Str ''a'', Str ''b'', Day 3]] [''Title'', ''Text'', ''Date''])
                            (DataFrame [] [''Title'', ''Text'', ''Date''])
     = Inr (DataFrame [[Str ''a'', Str ''b'', Day 3]] [''Title'', ''Text'', ''Date''])
   \<and> fst (analyze_daily_sentiment (\<lambda>t. 1)
            (DataFrame [[Str ''a'', Str ''b'', Day 3]] [''Title'', ''Text'', ''Date'']))
     = Inr \<lparr>columns = [''Date'', ''Overall_Sentiment''], rows = [[Day 3, Num 1]]\<rparr>
   \<and> fst (main (\<lambda>t. 1) floor [] 10
            (Some (Csv (DataFrame [[Str ''a'', Str ''b'', Day 3]] [''Title'', ''Text'', ''Date'']))))
     = Inr \<lparr>columns = [''Date'', ''Overall_Sentiment''], rows = []\<rparr>"
  by (simp add: eval_defs)

text \<open>
  Claim C7 does not hold of the code. \<^verbatim>\<open>main\<close> hands to \<^verbatim>\<open>save_posts_to_csv\<close> the frame that
  \<^verbatim>\<open>analyze_daily_sentiment\<close> has just extended, so the file written at the end of a run has
  the three sentiment columns: here for a run on no file and a feed of one post in the window.
\<close>

theorem main_persists_sentiment_columns:
  "snd (main (\<lambda>t. 0) floor [Yield \<lparr>title = ''a'', selftext = ''w'', created_utc = 10\<rparr>] 10 None)
   = Some (Csv \<lparr>columns = [''Title'', ''Text'', ''Date'', ''Sentiment_Title'', ''Sentiment_Text'',
                           ''Overall_Sentiment''],
                rows = [[Str ''a'', Str ''w'', Day 10, Num 0, Num 0, Num 0]]\<rparr>)"
  by (simp add: main_def load_posts_from_csv_def get_reddit_posts_for_date_def Let_def
        post_row_def save_posts_to_csv_def to_csv_def DataFrame_def df_empty_def
        concat_drop_duplicates_def pd_concat_def reindex_def drop_duplicates_def
        analyze_daily_sentiment_def getitem_def setitem_def groupby_mean_def cell_of_def mean_def)

end
